theory Spec2Isabelle
  imports Main "HOL-Library.Sublist"
begin

section \<open>The Slurm backend of slurmy (src/slurmy/backends/slurm.py)\<close>

text \<open>
  A shallow embedding of the class \<open>Slurm\<close> and of the closure \<open>listen\<close> returned by
  \<open>Slurm.get_listen_func\<close>. Python strings are \<open>string\<close>, \<open>None\<close>-able attributes are
  options, every exception is a value of \<open>error\<close>, and the outside world (the child
  processes spawned by \<open>subprocess.check_output\<close>, the shell of \<open>os.system\<close>, the
  results queue) is an explicit record \<open>env\<close> that every method takes and returns.
\<close>

subsection \<open>Python strings\<close>

abbreviation NL :: char where
  "NL \<equiv> CHR 0x0A"

text \<open>\<open>s.split(sep)\<close> for a separator of one character: never empty, \<open>''.split(sep) = ['']\<close>.\<close>

fun split_on :: "char \<Rightarrow> string \<Rightarrow> string list" where
  "split_on sep [] = [[]]"
| "split_on sep (c # cs) =
     (if c = sep then [] # split_on sep cs
      else (case split_on sep cs of
              [] \<Rightarrow> [[c]]
            | w # ws \<Rightarrow> (c # w) # ws))"

text \<open>\<open>s.rstrip(chars)\<close>: drops every trailing character that is among \<open>chars\<close>.\<close>

definition rstrip :: "string \<Rightarrow> string \<Rightarrow> string" where
  "rstrip s chars = rev (dropWhile (\<lambda>c. c \<in> set chars) (rev s))"

text \<open>\<open>sub in s\<close> on strings: \<open>sub\<close> occurs in \<open>s\<close> as a contiguous substring.\<close>

fun contains :: "string \<Rightarrow> string \<Rightarrow> bool" where
  "contains sub [] = (sub = [])"
| "contains sub (c # cs) = (prefix sub (c # cs) \<or> contains sub cs)"

text \<open>\<open>' '.join(xs)\<close>.\<close>

fun join_space :: "string list \<Rightarrow> string" where
  "join_space [] = []"
| "join_space [x] = x"
| "join_space (x # y # ys) = x @ '' '' @ join_space (y # ys)"

text \<open>
  \<open>int(s)\<close> on a string: surrounding whitespace is stripped, one sign is allowed, then
  decimal digits, where a single underscore may stand between two digits. Characters are
  bytes here, so only the ASCII digits and the ASCII whitespace of Python are covered.
  \<open>None\<close> is Python's \<open>ValueError\<close>.
\<close>

definition digit_of :: "char \<Rightarrow> int option" where
  "digit_of = map_of (zip ''0123456789'' [0, 1, 2, 3, 4, 5, 6, 7, 8, 9])"

fun digits_from :: "int \<Rightarrow> string \<Rightarrow> int option" where
  "digits_from acc [] = None"
| "digits_from acc [c] =
     (case digit_of c of None \<Rightarrow> None | Some v \<Rightarrow> Some (10 * acc + v))"
| "digits_from acc (c # d # cs) =
     (case digit_of c of
        Some v \<Rightarrow>
          if d = CHR ''_'' then
            (case cs of
               [] \<Rightarrow> None
             | e # es \<Rightarrow> if digit_of e = None then None else digits_from (10 * acc + v) cs)
          else digits_from (10 * acc + v) (d # cs)
      | None \<Rightarrow> None)"

definition is_space :: "char \<Rightarrow> bool" where
  "is_space c \<longleftrightarrow>
     c \<in> set [CHR 0x09, CHR 0x0A, CHR 0x0B, CHR 0x0C, CHR 0x0D,
              CHR 0x1C, CHR 0x1D, CHR 0x1E, CHR 0x1F, CHR 0x20]"

definition strip :: "string \<Rightarrow> string" where
  "strip s = rev (dropWhile is_space (rev (dropWhile is_space s)))"

definition py_int :: "string \<Rightarrow> int option" where
  "py_int s =
     (case strip s of
        [] \<Rightarrow> None
      | c # cs \<Rightarrow>
          if c = CHR ''-'' then map_option uminus (digits_from 0 cs)
          else if c = CHR ''+'' then digits_from 0 cs
          else digits_from 0 (c # cs))"

text \<open>\<open>'{}'.format(n)\<close> for an integer, and for \<open>None\<close>.\<close>

definition digit_char :: "nat \<Rightarrow> char" where
  "digit_char n = ''0123456789'' ! (n mod 10)"

function str_nat :: "nat \<Rightarrow> string" where
  "str_nat n = (if n < 10 then [digit_char n] else str_nat (n div 10) @ [digit_char n])"
  by pat_completeness auto
termination
  by (relation "measure id") auto

declare str_nat.simps [simp del]

definition str_int :: "int \<Rightarrow> string" where
  "str_int i = (if i < 0 then CHR ''-'' # str_nat (nat (- i)) else str_nat (nat i))"

definition format_id :: "int option \<Rightarrow> string" where
  "format_id j = (case j of None \<Rightarrow> ''None'' | Some i \<Rightarrow> str_int i)"

subsection \<open>Errors, statuses, the object and the outside world\<close>

datatype error =
    CalledProcessError int
  | OSError
  | IndexError
  | ValueError
  | KeyError

text \<open>
  Modelled from the spec: \<open>Status\<close> of \<open>slurmy/tools/defs.py\<close>, which is not among the
  sources; the spec names the two statuses this backend reports, \<open>Running\<close> and \<open>Finished\<close>.
\<close>

datatype Status = RUNNING | FINISHED

text \<open>\<open>run_args\<close> is either one string or a sequence of strings.\<close>

datatype run_args = ArgStr string | ArgSeq "string list"

text \<open>
  The attributes set by \<open>Slurm.__init__\<close>. \<open>partition\<close> is \<open>partition_opt\<close> (the name is a
  list function of HOL); the private \<open>_job_id\<close> and \<open>_exitcode\<close> are \<open>u_job_id\<close> and \<open>u_exitcode\<close>.
\<close>

record slurm =
  name :: "string option"
  log :: "string option"
  run_script :: "string option"
  run_args :: "run_args option"
  partition_opt :: "string option"
  exclude :: "string option"
  clusters :: "string option"
  qos :: "string option"
  mem :: "string option"
  time :: "string option"
  export :: "string option"
  u_job_id :: "int option"
  u_exitcode :: "string option"

definition init :: "string option \<Rightarrow> string option \<Rightarrow> string option \<Rightarrow> run_args option \<Rightarrow>
    string option \<Rightarrow> string option \<Rightarrow> string option \<Rightarrow> string option \<Rightarrow> string option \<Rightarrow>
    string option \<Rightarrow> string option \<Rightarrow> slurm" where
  "init name' log' run_script' run_args' partition' exclude' clusters' qos' mem' time' export' =
     \<lparr> name = name', log = log', run_script = run_script', run_args = run_args',
       partition_opt = partition', exclude = exclude', clusters = clusters', qos = qos',
       mem = mem', time = time', export = export',
       u_job_id = None, u_exitcode = None \<rparr>"

text \<open>
  What \<open>slurm.py\<close> uses and does not define: \<open>Base._get_command\<close> (the command-wrapping
  hook), \<open>self.wrapper.get\<close> (already formatted by \<open>'{} '.format\<close>), the backend id
  \<open>bids['SLURM']\<close>, \<open>options.Main.user\<close>; and \<open>shlex.split\<close> of the standard library,
  which raises \<open>ValueError\<close> on an unclosed quotation.
\<close>

record deps =
  get_command :: "string \<Rightarrow> string \<Rightarrow> string"
  wrapper_get :: "string option \<Rightarrow> string"
  shlex_split :: "string \<Rightarrow> error + string list"
  bid :: string
  user :: "string option"

text \<open>What a spawned child process does: it exits with a return code and a standard
  output (the text \<open>check_output\<close> decodes with \<open>universal_newlines\<close>), or cannot be started.\<close>

datatype proc = Exited int string | NotStarted

fun check_output :: "proc \<Rightarrow> error + string" where
  "check_output (Exited rc out) = (if rc = 0 then Inr out else Inl (CalledProcessError rc))"
| "check_output NotStarted = Inl OSError"

text \<open>The entries of the published mapping: \<open>{'status': ..., 'exitcode': ...}\<close>.\<close>

record entry =
  entry_status :: Status
  entry_exitcode :: string

text \<open>
  The outside world. \<open>run n argv\<close> is what the \<open>n\<close>-th process spawned does when it is
  started with \<open>argv\<close>; \<open>spawned\<close> counts the processes spawned so far; \<open>system_calls\<close>
  lists the commands given to \<open>os.system\<close>; \<open>queue\<close> is the results queue of the listener;
  \<open>returned\<close> is a history variable listing the values \<open>status()\<close> has returned.
\<close>

record env =
  run :: "nat \<Rightarrow> string list \<Rightarrow> proc"
  spawned :: nat
  system_calls :: "string list"
  queue :: "(int \<times> entry) list list"
  returned :: "Status list"

definition run_states :: "string set" where
  "run_states = set [''PENDING'', ''RUNNING'']"

subsection \<open>Building the commands\<close>

text \<open>\<open>if v: command += pre + '{} '.format(v)\<close>: an empty string is false in Python.\<close>

definition add_opt :: "string \<Rightarrow> string option \<Rightarrow> string \<Rightarrow> string" where
  "add_opt pre v command =
     (case v of
        None \<Rightarrow> command
      | Some x \<Rightarrow> if x = [] then command else command @ pre @ x @ '' '')"

text \<open>The same for the integer \<open>job_id\<close>: \<open>0\<close> is false in Python.\<close>

definition add_opt_id :: "string \<Rightarrow> int option \<Rightarrow> string \<Rightarrow> string" where
  "add_opt_id pre v command =
     (case v of
        None \<Rightarrow> command
      | Some i \<Rightarrow> if i = 0 then command else command @ pre @ str_int i @ '' '')"

definition add_run_args :: "run_args option \<Rightarrow> string \<Rightarrow> string" where
  "add_run_args a command =
     (case a of
        None \<Rightarrow> command
      | Some (ArgStr s) \<Rightarrow> if s = [] then command else command @ s
      | Some (ArgSeq xs) \<Rightarrow> if xs = [] then command else command @ join_space xs)"

text \<open>The string \<open>_get_submit_command\<close> assembles before it is wrapped and split.\<close>

definition submit_command_string :: "deps \<Rightarrow> slurm \<Rightarrow> string" where
  "submit_command_string d self =
     (let submit_command = ''sbatch '';
          submit_command = add_opt ''-J '' (name self) submit_command;
          submit_command = add_opt ''-o '' (log self) submit_command;
          submit_command = add_opt ''-p '' (partition_opt self) submit_command;
          submit_command = add_opt ''-x '' (exclude self) submit_command;
          submit_command = add_opt ''-M '' (clusters self) submit_command;
          submit_command = add_opt ''--qos='' (qos self) submit_command;
          submit_command = add_opt ''--mem='' (mem self) submit_command;
          submit_command = add_opt ''--time='' (time self) submit_command;
          submit_command = add_opt ''--export='' (export self) submit_command;
          run_script' = wrapper_get d (run_script self);
          submit_command = submit_command @ run_script' @ '' ''
      in add_run_args (run_args self) submit_command)"

definition get_submit_command :: "deps \<Rightarrow> slurm \<Rightarrow> error + string list" where
  "get_submit_command d self =
     shlex_split d (get_command d (submit_command_string d self) (bid d))"

definition get_sacct_command ::
    "deps \<Rightarrow> string \<Rightarrow> int option \<Rightarrow> string option \<Rightarrow> string option \<Rightarrow> string option
       \<Rightarrow> error + string list" where
  "get_sacct_command d column job_id user' partition' clusters' =
     (let sacct_command = ''sacct '';
          sacct_command = add_opt ''-r '' partition' sacct_command;
          sacct_command = add_opt ''-M '' clusters' sacct_command;
          sacct_command = add_opt_id ''-j '' job_id sacct_command;
          sacct_command = add_opt ''-u '' user' sacct_command;
          sacct_command = sacct_command @ ''-P -o '' @ column
      in shlex_split d (get_command d sacct_command (bid d)))"

subsection \<open>submit and cancel\<close>

text \<open>\<open>xs[i]\<close> for \<open>i \<ge> 0\<close>: \<open>IndexError\<close> out of range.\<close>

definition index :: "'a list \<Rightarrow> nat \<Rightarrow> error + 'a" where
  "index xs i = (if i < length xs then Inr (xs ! i) else Inl IndexError)"

text \<open>Every method returns its result (or the exception it raises) with the object and
  the world as it leaves them.\<close>

definition submit :: "deps \<Rightarrow> slurm \<Rightarrow> env \<Rightarrow> (error + int) \<times> slurm \<times> env" where
  "submit d self w =
     (case get_submit_command d self of
        Inl e \<Rightarrow> (Inl e, self, w)
      | Inr submit_list \<Rightarrow>
          (let w' = w\<lparr>spawned := Suc (spawned w)\<rparr> in
           case check_output (run w (spawned w) submit_list) of
             Inl e \<Rightarrow> (Inl e, self, w')
           | Inr submit_string \<Rightarrow>
               (case index (split_on CHR '' '' submit_string) 3 of
                  Inl e \<Rightarrow> (Inl e, self, w')
                | Inr token \<Rightarrow>
                    (case py_int (rstrip token [NL]) of
                       None \<Rightarrow> (Inl ValueError, self, w')
                     | Some job_id \<Rightarrow> (Inr job_id, self\<lparr>u_job_id := Some job_id\<rparr>, w')))))"

text \<open>\<open>os.system\<close> raises nothing, whatever the command does.\<close>

definition cancel :: "deps \<Rightarrow> slurm \<Rightarrow> env \<Rightarrow> (error + unit) \<times> slurm \<times> env" where
  "cancel d self w =
     (let cancel_command = ''scancel '' @ format_id (u_job_id self);
          cancel_command = get_command d cancel_command (bid d)
      in (Inr (), self, w\<lparr>system_calls := system_calls w @ [cancel_command]\<rparr>))"

subsection \<open>status and exitcode\<close>

text \<open>\<open>a, b, c = xs\<close>: \<open>ValueError\<close> unless \<open>xs\<close> has exactly three elements.\<close>

fun unpack3 :: "'a list \<Rightarrow> error + ('a \<times> 'a \<times> 'a)" where
  "unpack3 [a, b, c] = Inr (a, b, c)"
| "unpack3 _ = Inl ValueError"

text \<open>The loop of \<open>_get_sacct_entry\<close> over \<open>sacct_output[1:]\<close>; the dictionary
  \<open>sacct_return\<close> is a map from its keys to its values.\<close>

fun sacct_loop :: "string list \<Rightarrow> (string \<rightharpoonup> string) \<Rightarrow> error + (string \<rightharpoonup> string)" where
  "sacct_loop [] sacct_return = Inr sacct_return"
| "sacct_loop (entry # rest) sacct_return =
     (case unpack3 (split_on CHR ''|'' entry) of
        Inl e \<Rightarrow> Inl e
      | Inr (job_string, state, exitcode') \<Rightarrow>
          if contains ''.batch'' job_string then sacct_loop rest sacct_return
          else sacct_loop rest (sacct_return(''finished'' \<mapsto> state, ''success'' \<mapsto> exitcode')))"

definition get_sacct_entry ::
    "deps \<Rightarrow> string \<Rightarrow> slurm \<Rightarrow> env \<Rightarrow> (error + (string \<rightharpoonup> string) option) \<times> env" where
  "get_sacct_entry d column self w =
     (case get_sacct_command d column (u_job_id self) None (partition_opt self) (clusters self) of
        Inl e \<Rightarrow> (Inl e, w)
      | Inr sacct_command \<Rightarrow>
          (let w' = w\<lparr>spawned := Suc (spawned w)\<rparr> in
           case check_output (run w (spawned w) sacct_command) of
             Inl e \<Rightarrow> (Inl e, w')
           | Inr out \<Rightarrow>
               (let sacct_output = split_on NL (rstrip out [NL]) in
                if length sacct_output > 1 then
                  (case sacct_loop (drop 1 sacct_output) Map.empty of
                     Inl e \<Rightarrow> (Inl e, w')
                   | Inr sacct_return \<Rightarrow> (Inr (Some sacct_return), w'))
                else (Inr None, w'))))"

text \<open>\<open>d[k]\<close>: \<open>KeyError\<close> when the key is missing.\<close>

definition lookup :: "('k \<rightharpoonup> 'v) \<Rightarrow> 'k \<Rightarrow> error + 'v" where
  "lookup m k = (case m k of None \<Rightarrow> Inl KeyError | Some v \<Rightarrow> Inr v)"

text \<open>\<open>return status\<close>, recorded in the history variable.\<close>

definition return_status :: "Status \<Rightarrow> slurm \<Rightarrow> env \<Rightarrow> (error + Status) \<times> slurm \<times> env" where
  "return_status st self w = (Inr st, self, w\<lparr>returned := returned w @ [st]\<rparr>)"

definition status :: "deps \<Rightarrow> slurm \<Rightarrow> env \<Rightarrow> (error + Status) \<times> slurm \<times> env" where
  "status d self w =
     (case get_sacct_entry d ''Job,State,ExitCode'' self w of
        (Inl e, w') \<Rightarrow> (Inl e, self, w')
      | (Inr None, w') \<Rightarrow> return_status RUNNING self w'
      | (Inr (Some sacct_return), w') \<Rightarrow>
          (case lookup sacct_return ''finished'' of
             Inl e \<Rightarrow> (Inl e, self, w')
           | Inr job_state \<Rightarrow>
               if job_state \<notin> run_states then
                 (case lookup sacct_return ''success'' of
                    Inl e \<Rightarrow> (Inl e, self, w')
                  | Inr ec \<Rightarrow> return_status FINISHED (self\<lparr>u_exitcode := Some ec\<rparr>) w')
               else return_status RUNNING self w'))"

definition exitcode :: "deps \<Rightarrow> slurm \<Rightarrow> env \<Rightarrow> (error + string option) \<times> slurm \<times> env" where
  "exitcode d self w =
     (if u_exitcode self = None then
        (case status d self w of
           (Inl e, self', w') \<Rightarrow> (Inl e, self', w')
         | (Inr _, self', w') \<Rightarrow> (Inr (u_exitcode self'), self', w'))
      else (Inr (u_exitcode self), self, w))"

subsection \<open>The listener\<close>

text \<open>
  \<open>job_ids\<close> is a Python \<open>set\<close>, whose iteration order the language leaves open. The
  model keeps the identifiers in the order of the \<open>add\<close> calls and takes the iteration
  order as a parameter \<open>set_iter\<close>, from that history to the order of the \<open>for\<close> loop.
  \<open>set_iter_ok\<close> is what every Python set gives: each element once.
\<close>

definition set_iter_ok :: "(int list \<Rightarrow> int list) \<Rightarrow> bool" where
  "set_iter_ok set_iter \<longleftrightarrow>
     (\<forall>xs. distinct (set_iter xs) \<and> set (set_iter xs) = set xs)"

text \<open>The first loop of \<open>listen\<close>, over \<open>result[1:]\<close>.\<close>

fun listen_scan ::
    "string list \<Rightarrow> int list \<times> (int \<rightharpoonup> string) \<times> (int \<rightharpoonup> string)
       \<Rightarrow> error + (int list \<times> (int \<rightharpoonup> string) \<times> (int \<rightharpoonup> string))" where
  "listen_scan [] acc = Inr acc"
| "listen_scan (res # rest) (job_ids, return_states, return_exitcodes) =
     (case unpack3 (split_on CHR ''|'' res) of
        Inl e \<Rightarrow> Inl e
      | Inr (job_id, state, exitcode') \<Rightarrow>
          if contains ''.batch'' job_id then
            listen_scan rest (job_ids, return_states, return_exitcodes)
          else if contains ''.extern'' job_id then
            listen_scan rest (job_ids, return_states, return_exitcodes)
          else
            (case py_int job_id of
               None \<Rightarrow> Inl ValueError
             | Some job_id \<Rightarrow>
                 listen_scan rest
                   (job_ids @ [job_id], return_states(job_id \<mapsto> state),
                    return_exitcodes(job_id \<mapsto> exitcode'))))"

text \<open>\<open>res_dict[k] = v\<close> on an \<open>OrderedDict\<close>: a new key goes to the end, a known key
  keeps its place.\<close>

definition od_set :: "'k \<Rightarrow> 'v \<Rightarrow> ('k \<times> 'v) list \<Rightarrow> ('k \<times> 'v) list" where
  "od_set k v od =
     (if k \<in> fst ` set od then map (\<lambda>(k', v'). if k' = k then (k, v) else (k', v')) od
      else od @ [(k, v)])"

text \<open>The second loop of \<open>listen\<close>, over the set \<open>job_ids\<close> in its iteration order.\<close>

fun listen_results ::
    "int list \<Rightarrow> (int \<rightharpoonup> string) \<Rightarrow> (int \<rightharpoonup> string) \<Rightarrow> (int \<times> entry) list
       \<Rightarrow> error + (int \<times> entry) list" where
  "listen_results [] return_states return_exitcodes res_dict = Inr res_dict"
| "listen_results (job_id # rest) return_states return_exitcodes res_dict =
     (case lookup return_states job_id of
        Inl e \<Rightarrow> Inl e
      | Inr state \<Rightarrow>
          if state \<in> run_states then
            listen_results rest return_states return_exitcodes res_dict
          else
            (case lookup return_exitcodes job_id of
               Inl e \<Rightarrow> Inl e
             | Inr exitcode' \<Rightarrow>
                 listen_results rest return_states return_exitcodes
                   (od_set job_id \<lparr>entry_status = FINISHED, entry_exitcode = exitcode'\<rparr> res_dict)))"

text \<open>One pass through the body of \<open>while True\<close>: the mapping it computes from the
  output of the query, and the body itself, which puts the mapping on the queue
  (\<open>time.sleep\<close> changes nothing in this model).\<close>

definition listen_mapping :: "(int list \<Rightarrow> int list) \<Rightarrow> string \<Rightarrow> error + (int \<times> entry) list" where
  "listen_mapping set_iter out =
     (let result = split_on NL (rstrip out [NL]) in
      case listen_scan (drop 1 result) ([], Map.empty, Map.empty) of
        Inl e \<Rightarrow> Inl e
      | Inr (job_ids, return_states, return_exitcodes) \<Rightarrow>
          listen_results (set_iter job_ids) return_states return_exitcodes [])"

definition listen_body ::
    "(int list \<Rightarrow> int list) \<Rightarrow> string list \<Rightarrow> env \<Rightarrow> (error + unit) \<times> env" where
  "listen_body set_iter command w =
     (let w' = w\<lparr>spawned := Suc (spawned w)\<rparr> in
      case check_output (run w (spawned w) command) of
        Inl e \<Rightarrow> (Inl e, w')
      | Inr out \<Rightarrow>
          (case listen_mapping set_iter out of
             Inl e \<Rightarrow> (Inl e, w')
           | Inr res_dict \<Rightarrow> (Inr (), w'\<lparr>queue := queue w' @ [res_dict]\<rparr>)))"

text \<open>\<open>while True\<close> never ends by itself: \<open>listen\<close> runs \<open>n\<close> passes and stops at the
  first exception. \<open>get_listen_func\<close> builds the command once.\<close>

fun listen :: "(int list \<Rightarrow> int list) \<Rightarrow> string list \<Rightarrow> nat \<Rightarrow> env \<Rightarrow> (error + unit) \<times> env" where
  "listen set_iter command 0 w = (Inr (), w)"
| "listen set_iter command (Suc n) w =
     (case listen_body set_iter command w of
        (Inl e, w') \<Rightarrow> (Inl e, w')
      | (Inr _, w') \<Rightarrow> listen set_iter command n w')"

definition get_listen_func :: "deps \<Rightarrow> string option \<Rightarrow> string option \<Rightarrow> error + string list" where
  "get_listen_func d partition' clusters' =
     get_sacct_command d ''JobID,State,ExitCode'' None (user d) partition' clusters'"

section \<open>What the claims speak of\<close>

subsection \<open>The rows of a query output\<close>

text \<open>
  The lines after the header, as both \<open>_get_sacct_entry\<close> and \<open>listen\<close> cut them; a row
  is well formed when it has the three fields identifier, state and exit code; a row
  survives \<open>status()\<close> when its identifier does not contain \<open>.batch\<close>.
\<close>

definition data_rows :: "string \<Rightarrow> string list" where
  "data_rows out = drop 1 (split_on NL (rstrip out [NL]))"

definition row_ok :: "string \<Rightarrow> bool" where
  "row_ok r \<longleftrightarrow> length (split_on CHR ''|'' r) = 3"

definition row_id :: "string \<Rightarrow> string" where
  "row_id r = split_on CHR ''|'' r ! 0"

definition row_state :: "string \<Rightarrow> string" where
  "row_state r = split_on CHR ''|'' r ! 1"

definition row_exitcode :: "string \<Rightarrow> string" where
  "row_exitcode r = split_on CHR ''|'' r ! 2"

definition not_batch :: "string \<Rightarrow> bool" where
  "not_batch r \<longleftrightarrow> \<not> contains ''.batch'' (row_id r)"

text \<open>
  The text the per-job query of an object returns in a world, and the text its submission
  returns: defined when the command can be built and the process exits with code 0.
\<close>

definition sacct_answer :: "deps \<Rightarrow> slurm \<Rightarrow> env \<Rightarrow> string option" where
  "sacct_answer d self w =
     (case get_sacct_command d ''Job,State,ExitCode'' (u_job_id self) None
             (partition_opt self) (clusters self) of
        Inl e \<Rightarrow> None
      | Inr argv \<Rightarrow>
          (case check_output (run w (spawned w) argv) of
             Inl e \<Rightarrow> None
           | Inr out \<Rightarrow> Some out))"

definition sbatch_answer :: "deps \<Rightarrow> slurm \<Rightarrow> env \<Rightarrow> string option" where
  "sbatch_answer d self w =
     (case get_submit_command d self of
        Inl e \<Rightarrow> None
      | Inr argv \<Rightarrow>
          (case check_output (run w (spawned w) argv) of
             Inl e \<Rightarrow> None
           | Inr out \<Rightarrow> Some out))"

subsection \<open>The batched poll\<close>

text \<open>
  The batched poll, in the words of the spec. A row is kept when its identifier has
  neither step marker; a kept row names the job \<open>int(identifier)\<close>; a row is well formed
  when it has three fields and, if kept, an identifier that reads as an integer.
\<close>

definition keeps :: "string \<Rightarrow> bool" where
  "keeps r \<longleftrightarrow> \<not> contains ''.batch'' (row_id r) \<and> \<not> contains ''.extern'' (row_id r)"

definition row_job :: "string \<Rightarrow> int option" where
  "row_job r = py_int (row_id r)"

definition poll_row_ok :: "string \<Rightarrow> bool" where
  "poll_row_ok r \<longleftrightarrow> row_ok r \<and> (keeps r \<longrightarrow> row_job r \<noteq> None)"

text \<open>
  The kept rows with their job identifiers, in scan order; the identifiers alone (the
  order of the \<open>add\<close> calls on \<open>job_ids\<close>); the last kept row of a job; and the entry the
  spec asks for: none while the state of that row is in the running set, otherwise
  \<open>FINISHED\<close> with the exit code of that row.
\<close>

definition kept_jobs :: "string list \<Rightarrow> (int \<times> string) list" where
  "kept_jobs rows = List.map_filter (\<lambda>r. map_option (\<lambda>j. (j, r)) (row_job r)) (filter keeps rows)"

definition poll_ids :: "string list \<Rightarrow> int list" where
  "poll_ids rows = map fst (kept_jobs rows)"

definition last_row_of :: "int \<Rightarrow> string list \<Rightarrow> string option" where
  "last_row_of j rows =
     (case filter (\<lambda>(i, r). i = j) (kept_jobs rows) of
        [] \<Rightarrow> None
      | x # xs \<Rightarrow> Some (snd (last (x # xs))))"

definition published_entry :: "int \<Rightarrow> string list \<Rightarrow> entry option" where
  "published_entry j rows =
     (case last_row_of j rows of
        None \<Rightarrow> None
      | Some r \<Rightarrow>
          if row_state r \<in> run_states then None
          else Some \<lparr>entry_status = FINISHED, entry_exitcode = row_exitcode r\<rparr>)"

text \<open>
  What the second loop of \<open>listen\<close> makes of the two dictionaries for one identifier.
\<close>

definition recorded :: "(int \<rightharpoonup> string) \<Rightarrow> (int \<rightharpoonup> string) \<Rightarrow> int \<Rightarrow> entry option" where
  "recorded return_states return_exitcodes j =
     (case return_states j of
        None \<Rightarrow> None
      | Some state \<Rightarrow>
          if state \<in> run_states then None
          else map_option (\<lambda>e. \<lparr>entry_status = FINISHED, entry_exitcode = e\<rparr>)
                 (return_exitcodes j))"

text \<open>
  Two iteration orders a set can have. \<open>first_seen\<close> is insertion order: each element
  where it was first added. \<open>ascending_iter\<close> is the order of CPython for a set of small
  non-negative integers: \<open>hash(i) = i\<close>, each element sits in the table slot of its own
  value and iteration walks the slots upwards, so \<open>{5, 2}\<close> gives \<open>2, 5\<close> whichever was
  added first.
\<close>

definition first_seen :: "int list \<Rightarrow> int list" where
  "first_seen xs = rev (remdups (rev xs))"

definition ascending_iter :: "int list \<Rightarrow> int list" where
  "ascending_iter xs = sort (remdups xs)"

text \<open>
  The order the spec gives the published mapping: the finished identifiers, each where
  it first appeared among the kept rows.
\<close>

definition discovery_order :: "string list \<Rightarrow> int list" where
  "discovery_order rows =
     filter (\<lambda>j. published_entry j rows \<noteq> None) (first_seen (poll_ids rows))"

subsection \<open>The submit command and the job identifier, in the words of the spec\<close>

text \<open>
  The optional fields with their flags, in the order of the spec; the flags of the fields
  that are set (the claim as it is written) and of the fields set to a non-empty value;
  the text of the run arguments.
\<close>

definition flag_fields :: "slurm \<Rightarrow> (string \<times> string option) list" where
  "flag_fields self =
     [(''-J '', name self), (''-o '', log self), (''-p '', partition_opt self),
      (''-x '', exclude self), (''-M '', clusters self), (''--qos='', qos self),
      (''--mem='', mem self), (''--time='', time self), (''--export='', export self)]"

definition flags_of_set :: "(string \<times> string option) list \<Rightarrow> string" where
  "flags_of_set fs =
     concat (map (\<lambda>(pre, v). case v of None \<Rightarrow> [] | Some x \<Rightarrow> pre @ x @ '' '') fs)"

definition flags_of_nonempty :: "(string \<times> string option) list \<Rightarrow> string" where
  "flags_of_nonempty fs =
     concat (map (\<lambda>(pre, v). case v of None \<Rightarrow> []
                             | Some x \<Rightarrow> if x = [] then [] else pre @ x @ '' '') fs)"

definition args_text :: "run_args option \<Rightarrow> string" where
  "args_text a = (case a of None \<Rightarrow> [] | Some (ArgStr s) \<Rightarrow> s | Some (ArgSeq xs) \<Rightarrow> join_space xs)"

text \<open>
  The fourth whitespace-separated token of the first line, read as an integer:
  \<open>ws_tokens\<close> is Python's \<open>s.split()\<close> without an argument.
\<close>

fun split_when :: "(char \<Rightarrow> bool) \<Rightarrow> string \<Rightarrow> string list" where
  "split_when p [] = [[]]"
| "split_when p (c # cs) =
     (if p c then [] # split_when p cs
      else (case split_when p cs of
              [] \<Rightarrow> [[c]]
            | t # ts \<Rightarrow> (c # t) # ts))"

definition ws_tokens :: "string \<Rightarrow> string list" where
  "ws_tokens s = filter (\<lambda>t. t \<noteq> []) (split_when is_space s)"

definition first_line :: "string \<Rightarrow> string" where
  "first_line s = takeWhile (\<lambda>c. c \<noteq> NL) s"

definition fourth_token_id :: "string \<Rightarrow> int option" where
  "fourth_token_id out =
     (let ts = ws_tokens (first_line out) in if length ts < 4 then None else py_int (ts ! 3))"

subsection \<open>Sequences of calls\<close>

text \<open>
  A caller may call the four methods in any order and go on after an exception:
  \<open>call_method\<close> keeps the object and the world as the call leaves them.
  \<open>exitcode_inv\<close> is the invariant of the spec on the stored exit code.
\<close>

datatype call = CallSubmit | CallCancel | CallStatus | CallExitcode

fun call_method :: "deps \<Rightarrow> call \<Rightarrow> slurm \<times> env \<Rightarrow> slurm \<times> env" where
  "call_method d CallSubmit (self, w) = snd (submit d self w)"
| "call_method d CallCancel (self, w) = snd (cancel d self w)"
| "call_method d CallStatus (self, w) = snd (status d self w)"
| "call_method d CallExitcode (self, w) = snd (exitcode d self w)"

definition exitcode_inv :: "slurm \<times> env \<Rightarrow> bool" where
  "exitcode_inv s \<longleftrightarrow> (u_exitcode (fst s) \<noteq> None) = (FINISHED \<in> set (returned (snd s)))"

subsection \<open>Example inputs\<close>

text \<open>
  An environment for the examples: the wrapping hook changes nothing, the wrapper returns
  the script, tokens are cut at spaces, and every process prints \<open>out\<close> and exits
  with code 0.
\<close>

definition ex_deps :: deps where
  "ex_deps = \<lparr> get_command = (\<lambda>command b. command),
       wrapper_get = (\<lambda>script. case script of None \<Rightarrow> ''None'' | Some x \<Rightarrow> x),
       shlex_split = (\<lambda>s. Inr (split_on CHR '' '' s)),
       bid = ''slurm'', user = Some ''alice'' \<rparr>"

definition ex_env :: "string \<Rightarrow> env" where
  "ex_env out = \<lparr> run = (\<lambda>n argv. Exited 0 out), spawned = 0, system_calls = [],
       queue = [], returned = [] \<rparr>"

text \<open>
  Objects: never submitted; submitted as job 4242; finished with a stored exit code; with
  an empty name; with some of the optional fields.
\<close>

definition ex_unsubmitted :: slurm where
  "ex_unsubmitted = init (Some ''job'') None (Some ''run.sh'') None None None None None None None None"

definition ex_job :: slurm where
  "ex_job = (init (Some ''job'') None (Some ''run.sh'') None None None None None None None None)
       \<lparr>u_job_id := Some 4242\<rparr>"

definition ex_finished :: slurm where
  "ex_finished = ex_job\<lparr>u_exitcode := Some ''1:0''\<rparr>"

definition ex_empty_name :: slurm where
  "ex_empty_name = init (Some []) None (Some ''run.sh'') None None None None None None None None"

definition ex_some_fields :: slurm where
  "ex_some_fields = init (Some ''fit'') None (Some ''run.sh'') (Some (ArgSeq [''-n'', ''10'']))
       (Some ''short'') None None None (Some ''4G'') None None"

text \<open>
  Outputs of the per-job query, of the submission and of the batched poll.
\<close>

definition out_header :: string where
  "out_header = ''JobID|State|ExitCode'' @ [NL]"

definition out_running :: string where
  "out_running = ''JobID|State|ExitCode'' @ [NL] @ ''4242|RUNNING|'' @ [NL]
       @ ''4242.batch|RUNNING|'' @ [NL]"

definition out_completed :: string where
  "out_completed = ''JobID|State|ExitCode'' @ [NL] @ ''4242|COMPLETED|0:0'' @ [NL]
       @ ''4242.batch|COMPLETED|0:0'' @ [NL]"

definition out_only_batch :: string where
  "out_only_batch = ''JobID|State|ExitCode'' @ [NL] @ ''4242.batch|COMPLETED|0:0'' @ [NL]"

definition out_submitted :: string where
  "out_submitted = ''Submitted batch job 4242'' @ [NL]"

definition out_two_spaces :: string where
  "out_two_spaces = ''Submitted  batch job 4242'' @ [NL]"

definition out_poll :: string where
  "out_poll = ''JobID|State|ExitCode'' @ [NL] @ ''10|RUNNING|'' @ [NL] @ ''11|FAILED|1:0'' @ [NL]
       @ ''11.batch|FAILED|1:0'' @ [NL] @ ''12.extern|COMPLETED|0:0'' @ [NL]"

definition out_5_2 :: string where
  "out_5_2 = ''JobID|State|ExitCode'' @ [NL] @ ''5|FAILED|1:0'' @ [NL] @ ''2|COMPLETED|0:0'' @ [NL]"

section \<open>Properties\<close>

subsection \<open>The per-job query: \<open>status\<close>\<close>

lemma unpack3_row_ok:
  "row_ok r \<Longrightarrow> unpack3 (split_on CHR ''|'' r) = Inr (row_id r, row_state r, row_exitcode r)"
proof -
  assume "row_ok r"
  then obtain a b c where "split_on CHR ''|'' r = [a, b, c]"
    unfolding row_ok_def by (auto simp: length_Suc_conv numeral_3_eq_3)
  then show ?thesis
    by (simp add: row_id_def row_state_def row_exitcode_def)
qed

lemma unpack3_not_ok: "\<not> row_ok r \<Longrightarrow> unpack3 (split_on CHR ''|'' r) = Inl ValueError"
  unfolding row_ok_def
  by (cases "split_on CHR ''|'' r" rule: unpack3.cases) auto

lemma split_on_not_Nil: "split_on sep s \<noteq> []"
  by (induction s) (auto split: list.splits)

lemma sacct_loop_ok:
  assumes "\<forall>r\<in>set rows. row_ok r"
  shows "sacct_loop rows m =
     Inr (if filter not_batch rows = [] then m
          else m(''finished'' \<mapsto> row_state (last (filter not_batch rows)),
                 ''success'' \<mapsto> row_exitcode (last (filter not_batch rows))))"
  using assms
proof (induction rows arbitrary: m)
  case Nil
  then show ?case by simp
next
  case (Cons r rows)
  then have ok: "row_ok r" and rest: "\<forall>r\<in>set rows. row_ok r" by simp_all
  show ?case
  proof (cases "not_batch r")
    case False
    then have "sacct_loop (r # rows) m = sacct_loop rows m"
      using ok by (simp add: unpack3_row_ok not_batch_def)
    then show ?thesis
      using Cons.IH [OF rest, of m] False by simp
  next
    case True
    let ?m = "m(''finished'' \<mapsto> row_state r, ''success'' \<mapsto> row_exitcode r)"
    have "sacct_loop (r # rows) m = sacct_loop rows ?m"
      using True ok by (simp add: unpack3_row_ok not_batch_def)
    also note Cons.IH [OF rest, of ?m]
    finally show ?thesis
      using True by auto
  qed
qed


lemma data_rows_Nil: "data_rows out = [] \<longleftrightarrow> \<not> length (split_on NL (rstrip out [NL])) > 1"
  by (auto simp: data_rows_def)

lemma get_sacct_entry_answer:
  assumes "sacct_answer d self w = Some out"
  shows "get_sacct_entry d ''Job,State,ExitCode'' self w =
     (if data_rows out = [] then (Inr None, w\<lparr>spawned := Suc (spawned w)\<rparr>)
      else (case sacct_loop (data_rows out) Map.empty of
              Inl e \<Rightarrow> (Inl e, w\<lparr>spawned := Suc (spawned w)\<rparr>)
            | Inr m \<Rightarrow> (Inr (Some m), w\<lparr>spawned := Suc (spawned w)\<rparr>)))"
  using assms
  by (auto simp: sacct_answer_def get_sacct_entry_def Let_def data_rows_Nil data_rows_def
      split: sum.splits)

lemma status_no_rows:
  assumes "sacct_answer d self w = Some out" and "data_rows out = []"
  shows "status d self w =
     (Inr RUNNING, self, w\<lparr>spawned := Suc (spawned w), returned := returned w @ [RUNNING]\<rparr>)"
  using assms by (simp add: status_def get_sacct_entry_answer return_status_def)

lemma status_all_batch:
  assumes "sacct_answer d self w = Some out" and "data_rows out \<noteq> []"
    and "\<forall>r\<in>set (data_rows out). row_ok r"
    and "filter not_batch (data_rows out) = []"
  shows "status d self w = (Inl KeyError, self, w\<lparr>spawned := Suc (spawned w)\<rparr>)"
  using assms
  by (simp add: status_def get_sacct_entry_answer sacct_loop_ok lookup_def)

lemma status_kept_row:
  assumes "sacct_answer d self w = Some out"
    and "\<forall>r\<in>set (data_rows out). row_ok r"
    and "filter not_batch (data_rows out) \<noteq> []"
  shows "status d self w =
     (if row_state (last (filter not_batch (data_rows out))) \<in> run_states
      then (Inr RUNNING, self,
            w\<lparr>spawned := Suc (spawned w), returned := returned w @ [RUNNING]\<rparr>)
      else (Inr FINISHED,
            self\<lparr>u_exitcode := Some (row_exitcode (last (filter not_batch (data_rows out))))\<rparr>,
            w\<lparr>spawned := Suc (spawned w), returned := returned w @ [FINISHED]\<rparr>))"
proof -
  from assms(3) have "data_rows out \<noteq> []" by auto
  with assms show ?thesis
    by (simp add: status_def get_sacct_entry_answer sacct_loop_ok lookup_def return_status_def)
qed


lemma ex_sacct_answer: "sacct_answer ex_deps self (ex_env out) = Some out"
  by (simp add: sacct_answer_def get_sacct_command_def ex_deps_def ex_env_def)

lemma data_rows_out_header: "data_rows out_header = []"
  by (simp add: data_rows_def out_header_def rstrip_def)

lemma data_rows_out_running: "data_rows out_running = [''4242|RUNNING|'', ''4242.batch|RUNNING|'']"
  by (simp add: data_rows_def out_running_def rstrip_def)

lemma data_rows_out_completed:
  "data_rows out_completed = [''4242|COMPLETED|0:0'', ''4242.batch|COMPLETED|0:0'']"
  by (simp add: data_rows_def out_completed_def rstrip_def)

lemma data_rows_out_only_batch: "data_rows out_only_batch = [''4242.batch|COMPLETED|0:0'']"
  by (simp add: data_rows_def out_only_batch_def rstrip_def)

lemmas row_defs = row_ok_def row_id_def row_state_def row_exitcode_def not_batch_def

text \<open>
  C7: when the per-job query returns no data row (a header only, or nothing), \<open>status()\<close>
  returns \<open>RUNNING\<close> and leaves the object, its stored exit code included, as it was; the
  same holds when the state of the last row kept is \<open>PENDING\<close> or \<open>RUNNING\<close>. The only
  changes are in the world: one process spawned, one value returned.
\<close>

theorem status_running_frame:
  assumes "sacct_answer d self w = Some out"
    and "data_rows out = [] \<or>
         ((\<forall>r\<in>set (data_rows out). row_ok r) \<and> filter not_batch (data_rows out) \<noteq> [] \<and>
          row_state (last (filter not_batch (data_rows out))) \<in> run_states)"
  shows "status d self w =
     (Inr RUNNING, self, w\<lparr>spawned := Suc (spawned w), returned := returned w @ [RUNNING]\<rparr>)"
  using assms(2)
proof
  assume "data_rows out = []"
  with assms(1) show ?thesis by (rule status_no_rows)
next
  assume "(\<forall>r\<in>set (data_rows out). row_ok r) \<and> filter not_batch (data_rows out) \<noteq> [] \<and>
          row_state (last (filter not_batch (data_rows out))) \<in> run_states"
  then show ?thesis
    using status_kept_row [OF assms(1)] by simp
qed

theorem status_running_frame_witness:
  "data_rows out_header = [] \<and>
   status ex_deps ex_job (ex_env out_header) =
     (Inr RUNNING, ex_job, (ex_env out_header)\<lparr>spawned := 1, returned := [RUNNING]\<rparr>) \<and>
   filter not_batch (data_rows out_running) = [''4242|RUNNING|''] \<and>
   row_state (last (filter not_batch (data_rows out_running))) \<in> run_states \<and>
   status ex_deps ex_job (ex_env out_running) =
     (Inr RUNNING, ex_job, (ex_env out_running)\<lparr>spawned := 1, returned := [RUNNING]\<rparr>) \<and>
   u_exitcode ex_job = None"
proof -
  have a: "sacct_answer ex_deps ex_job (ex_env out_header) = Some out_header"
    and b: "sacct_answer ex_deps ex_job (ex_env out_running) = Some out_running"
    by (rule ex_sacct_answer)+
  have c: "(\<forall>r\<in>set (data_rows out_running). row_ok r) \<and>
      filter not_batch (data_rows out_running) = [''4242|RUNNING|''] \<and>
      row_state (last (filter not_batch (data_rows out_running))) \<in> run_states"
    by (simp add: data_rows_out_running row_defs run_states_def)
  have s1: "status ex_deps ex_job (ex_env out_header) =
      (Inr RUNNING, ex_job, (ex_env out_header)\<lparr>spawned := Suc (spawned (ex_env out_header)),
         returned := returned (ex_env out_header) @ [RUNNING]\<rparr>)"
    using status_running_frame [OF a] data_rows_out_header by blast
  have s2: "status ex_deps ex_job (ex_env out_running) =
      (Inr RUNNING, ex_job, (ex_env out_running)\<lparr>spawned := Suc (spawned (ex_env out_running)),
         returned := returned (ex_env out_running) @ [RUNNING]\<rparr>)"
  proof -
    from c have "filter not_batch (data_rows out_running) \<noteq> []" by simp
    with status_running_frame [OF b] c show ?thesis by blast
  qed
  have e: "u_exitcode ex_job = None"
    by (simp add: ex_job_def init_def)
  show ?thesis
    unfolding s1 s2 using c e by (auto simp: data_rows_out_header ex_env_def)
qed

text \<open>
  C2: when the per-job query returns rows of three fields of which at least one has an
  identifier without \<open>.batch\<close>, \<open>status()\<close> ignores the \<open>.batch\<close> rows and decides on the
  last row kept: \<open>RUNNING\<close> if its state is \<open>PENDING\<close> or \<open>RUNNING\<close>, otherwise
  \<open>FINISHED\<close>, with the exit code of that row stored on the object.
\<close>

theorem status_last_kept_row:
  assumes "sacct_answer d self w = Some out"
    and "\<forall>r\<in>set (data_rows out). row_ok r"
    and "filter not_batch (data_rows out) \<noteq> []"
  shows "status d self w =
     (if row_state (last (filter not_batch (data_rows out))) \<in> run_states
      then (Inr RUNNING, self,
            w\<lparr>spawned := Suc (spawned w), returned := returned w @ [RUNNING]\<rparr>)
      else (Inr FINISHED,
            self\<lparr>u_exitcode := Some (row_exitcode (last (filter not_batch (data_rows out))))\<rparr>,
            w\<lparr>spawned := Suc (spawned w), returned := returned w @ [FINISHED]\<rparr>))"
  using assms by (rule status_kept_row)

theorem status_last_kept_row_witness:
  "list_all row_ok (data_rows out_completed) \<and>
   filter not_batch (data_rows out_completed) = [''4242|COMPLETED|0:0''] \<and>
   status ex_deps ex_job (ex_env out_completed) =
     (Inr FINISHED, ex_job\<lparr>u_exitcode := Some ''0:0''\<rparr>,
      (ex_env out_completed)\<lparr>spawned := 1, returned := [FINISHED]\<rparr>)"
proof -
  have a: "sacct_answer ex_deps ex_job (ex_env out_completed) = Some out_completed"
    by (rule ex_sacct_answer)
  have b: "\<forall>r\<in>set (data_rows out_completed). row_ok r"
    and c: "filter not_batch (data_rows out_completed) = [''4242|COMPLETED|0:0'']"
    by (simp_all add: data_rows_out_completed row_defs)
  have d: "row_state ''4242|COMPLETED|0:0'' = ''COMPLETED''"
    "row_exitcode ''4242|COMPLETED|0:0'' = ''0:0''"
    by (simp_all add: row_defs)
  show ?thesis
    using status_last_kept_row [OF a b] b c d
    by (simp add: run_states_def ex_env_def list_all_iff)
qed

text \<open>
  C10: when the per-job query returns a header and at least one row of three fields,
  \<open>status()\<close> raises \<open>KeyError\<close> (and returns no status, the object unchanged) exactly
  when the identifier of every row contains \<open>.batch\<close>: the record parsed is then empty and
  the lookup of \<open>'finished'\<close> fails.
\<close>

theorem status_only_batch_rows:
  assumes "sacct_answer d self w = Some out"
    and "data_rows out \<noteq> []"
    and "\<forall>r\<in>set (data_rows out). row_ok r"
  shows "status d self w = (Inl KeyError, self, w\<lparr>spawned := Suc (spawned w)\<rparr>)
     \<longleftrightarrow> (\<forall>r\<in>set (data_rows out). contains ''.batch'' (row_id r))"
proof
  assume "status d self w = (Inl KeyError, self, w\<lparr>spawned := Suc (spawned w)\<rparr>)"
  then have "filter not_batch (data_rows out) = []"
    using status_kept_row [OF assms(1) assms(3)]
    by (cases "filter not_batch (data_rows out) = []") (auto split: if_splits)
  then show "\<forall>r\<in>set (data_rows out). contains ''.batch'' (row_id r)"
    by (auto simp: filter_empty_conv not_batch_def)
next
  assume "\<forall>r\<in>set (data_rows out). contains ''.batch'' (row_id r)"
  then have "filter not_batch (data_rows out) = []"
    by (auto simp: filter_empty_conv not_batch_def)
  with assms show "status d self w = (Inl KeyError, self, w\<lparr>spawned := Suc (spawned w)\<rparr>)"
    by (simp add: status_all_batch)
qed

theorem status_only_batch_rows_witness:
  "data_rows out_only_batch \<noteq> [] \<and>
   list_all (\<lambda>r. row_ok r \<and> contains ''.batch'' (row_id r)) (data_rows out_only_batch) \<and>
   status ex_deps ex_job (ex_env out_only_batch) =
     (Inl KeyError, ex_job, (ex_env out_only_batch)\<lparr>spawned := 1\<rparr>)"
proof -
  have a: "sacct_answer ex_deps ex_job (ex_env out_only_batch) = Some out_only_batch"
    by (rule ex_sacct_answer)
  have b: "data_rows out_only_batch \<noteq> []"
    and c: "\<forall>r\<in>set (data_rows out_only_batch). row_ok r"
    and e: "\<forall>r\<in>set (data_rows out_only_batch). contains ''.batch'' (row_id r)"
    by (simp_all add: data_rows_out_only_batch row_defs)
  show ?thesis
    using status_only_batch_rows [OF a b c] b c e
    by (simp add: ex_env_def list_all_iff)
qed

subsection \<open>\<open>exitcode\<close>, \<open>cancel\<close> and the invariant of the stored exit code\<close>

lemma get_sacct_entry_returned: "returned (snd (get_sacct_entry d column self w)) = returned w"
  by (simp add: get_sacct_entry_def Let_def split: sum.splits)

lemma get_sacct_entry_spawned:
  "spawned (snd (get_sacct_entry d column self w)) \<le> Suc (spawned w)"
  by (simp add: get_sacct_entry_def Let_def split: sum.splits)

lemma status_result:
  "(\<exists>e w'. status d self w = (Inl e, self, w') \<and> returned w' = returned w) \<or>
   (\<exists>w'. status d self w = (Inr RUNNING, self, w') \<and> returned w' = returned w @ [RUNNING]) \<or>
   (\<exists>ec w'. status d self w = (Inr FINISHED, self\<lparr>u_exitcode := Some ec\<rparr>, w') \<and>
      returned w' = returned w @ [FINISHED])"
proof -
  obtain r w1 where g: "get_sacct_entry d ''Job,State,ExitCode'' self w = (r, w1)"
    by (cases "get_sacct_entry d ''Job,State,ExitCode'' self w")
  with get_sacct_entry_returned [of d "''Job,State,ExitCode''" self w]
  have w1: "returned w1 = returned w" by simp
  show ?thesis
    using g w1
    by (cases r) (auto simp: status_def return_status_def split: sum.splits option.splits)
qed

lemma status_spawned: "spawned (snd (snd (status d self w))) \<le> Suc (spawned w)"
proof -
  obtain r w1 where g: "get_sacct_entry d ''Job,State,ExitCode'' self w = (r, w1)"
    by (cases "get_sacct_entry d ''Job,State,ExitCode'' self w")
  with get_sacct_entry_spawned [of d "''Job,State,ExitCode''" self w]
  have "spawned w1 \<le> Suc (spawned w)" by simp
  with g show ?thesis
    by (auto simp: status_def return_status_def split: sum.splits option.splits if_splits)
qed

text \<open>
  C6: with no exit code stored, \<open>exitcode()\<close> is one call of \<open>status()\<close> (at most one
  process is spawned) followed by returning the exit code stored after it, which may
  still be \<open>None\<close>; an exception of \<open>status()\<close> passes through. With an exit code
  stored, \<open>exitcode()\<close> returns it and touches neither the object nor the world.
\<close>

theorem exitcode_one_status_call:
  "(u_exitcode self = None \<longrightarrow>
      exitcode d self w =
        (case status d self w of
           (r, self', w') \<Rightarrow> (map_sum id (\<lambda>st. u_exitcode self') r, self', w')) \<and>
      spawned (snd (snd (exitcode d self w))) \<le> Suc (spawned w)) \<and>
   (u_exitcode self \<noteq> None \<longrightarrow> exitcode d self w = (Inr (u_exitcode self), self, w))"
proof -
  have "spawned (snd (snd (exitcode d self w))) \<le> Suc (spawned w)" if "u_exitcode self = None"
    using that status_spawned [of d self w]
    by (auto simp: exitcode_def split: prod.splits sum.splits)
  then show ?thesis
    by (auto simp: exitcode_def split: prod.splits sum.splits)
qed

theorem exitcode_one_status_call_witness:
  "u_exitcode ex_job = None \<and>
   exitcode ex_deps ex_job (ex_env out_completed) =
     (Inr (Some ''0:0''), ex_job\<lparr>u_exitcode := Some ''0:0''\<rparr>,
      (ex_env out_completed)\<lparr>spawned := 1, returned := [FINISHED]\<rparr>) \<and>
   exitcode ex_deps ex_job (ex_env out_running) =
     (Inr None, ex_job, (ex_env out_running)\<lparr>spawned := 1, returned := [RUNNING]\<rparr>) \<and>
   u_exitcode ex_finished = Some ''1:0'' \<and>
   exitcode ex_deps ex_finished (ex_env out_completed) =
     (Inr (Some ''1:0''), ex_finished, ex_env out_completed)"
proof -
  have n: "u_exitcode ex_job = None"
    by (simp add: ex_job_def init_def)
  have f: "u_exitcode ex_finished = Some ''1:0''"
    by (simp add: ex_finished_def)
  have s1: "status ex_deps ex_job (ex_env out_completed) =
      (Inr FINISHED, ex_job\<lparr>u_exitcode := Some ''0:0''\<rparr>,
       (ex_env out_completed)\<lparr>spawned := 1, returned := [FINISHED]\<rparr>)"
    using status_kept_row [OF ex_sacct_answer, of out_completed ex_job]
    by (simp add: data_rows_out_completed row_defs run_states_def ex_env_def)
  have s2: "status ex_deps ex_job (ex_env out_running) =
      (Inr RUNNING, ex_job, (ex_env out_running)\<lparr>spawned := 1, returned := [RUNNING]\<rparr>)"
    using status_kept_row [OF ex_sacct_answer, of out_running ex_job]
    by (simp add: data_rows_out_running row_defs run_states_def ex_env_def)
  show ?thesis
    using exitcode_one_status_call [of ex_job ex_deps "ex_env out_completed"]
      exitcode_one_status_call [of ex_job ex_deps "ex_env out_running"]
      exitcode_one_status_call [of ex_finished ex_deps "ex_env out_completed"]
    by (simp add: n f s1 s2)
qed

text \<open>
  C8, as stated, fails: \<open>cancel()\<close> on an object that was never submitted raises nothing.
  It formats \<open>None\<close> into the command and hands \<open>scancel None\<close> to \<open>os.system\<close>.
\<close>

theorem cancel_without_id_counterexample:
  "u_job_id ex_unsubmitted = None \<and>
   cancel ex_deps ex_unsubmitted (ex_env []) =
     (Inr (), ex_unsubmitted, (ex_env [])\<lparr>system_calls := [''scancel None'']\<rparr>)"
  by (simp add: cancel_def ex_unsubmitted_def init_def format_id_def ex_deps_def ex_env_def)

text \<open>
  C8, amended: \<open>cancel()\<close> on an object with no job identifier returns normally, leaves
  the object unchanged and gives the wrapped command \<open>scancel None\<close> to \<open>os.system\<close> once.
\<close>

theorem cancel_without_id:
  assumes "u_job_id self = None"
  shows "cancel d self w =
     (Inr (), self,
      w\<lparr>system_calls := system_calls w @ [get_command d ''scancel None'' (bid d)]\<rparr>)"
  using assms by (simp add: cancel_def format_id_def)

theorem cancel_without_id_witness:
  "u_job_id ex_unsubmitted = None \<and>
   cancel ex_deps ex_unsubmitted (ex_env out_header) =
     (Inr (), ex_unsubmitted,
      (ex_env out_header)\<lparr>system_calls := [get_command ex_deps ''scancel None'' ''slurm'']\<rparr>)"
proof -
  have n: "u_job_id ex_unsubmitted = None"
    by (simp add: ex_unsubmitted_def init_def)
  from cancel_without_id [OF n, of ex_deps "ex_env out_header"] n show ?thesis
    by (simp add: ex_env_def ex_deps_def)
qed

lemma submit_keeps:
  "u_exitcode (fst (snd (submit d self w))) = u_exitcode self"
  "returned (snd (snd (submit d self w))) = returned w"
  by (simp_all add: submit_def Let_def split: sum.splits option.splits)

lemma cancel_keeps:
  "u_exitcode (fst (snd (cancel d self w))) = u_exitcode self"
  "returned (snd (snd (cancel d self w))) = returned w"
  by (simp_all add: cancel_def Let_def)

lemma status_keeps_inv:
  assumes "exitcode_inv (self, w)"
  shows "exitcode_inv (snd (status d self w))"
  using assms status_result [of d self w] by (auto simp: exitcode_inv_def)

lemma exitcode_keeps_inv:
  assumes "exitcode_inv (self, w)"
  shows "exitcode_inv (snd (exitcode d self w))"
proof (cases "u_exitcode self = None")
  case True
  then have "snd (exitcode d self w) = snd (status d self w)"
    by (auto simp: exitcode_def split: prod.splits sum.splits)
  with status_keeps_inv [OF assms] show ?thesis by simp
next
  case False
  then have "exitcode d self w = (Inr (u_exitcode self), self, w)"
    unfolding exitcode_def by (simp only: if_False)
  with assms show ?thesis by simp
qed

lemma call_method_keeps_inv:
  assumes "exitcode_inv s"
  shows "exitcode_inv (call_method d c s)"
proof (cases s)
  case (Pair self w)
  with assms show ?thesis
    by (cases c)
      (auto simp: status_keeps_inv exitcode_keeps_inv,
       auto simp: exitcode_inv_def submit_keeps cancel_keeps)
qed

lemma fold_keeps_inv: "exitcode_inv s \<Longrightarrow> exitcode_inv (fold (call_method d) calls s)"
  by (induction calls arbitrary: s) (simp_all add: call_method_keeps_inv)

text \<open>
  C9: from construction on, through any sequence of calls of \<open>submit\<close>, \<open>cancel\<close>,
  \<open>status\<close> and \<open>exitcode\<close> (whether they return or raise), the stored exit code is set
  if and only if some call of \<open>status()\<close> has returned \<open>FINISHED\<close>.
\<close>

theorem exitcode_set_iff_finished_returned:
  assumes "returned w = []"
  shows "(u_exitcode (fst (fold (call_method d) calls
            (init name' log' run_script' run_args' partition' exclude' clusters' qos' mem'
               time' export', w))) \<noteq> None)
     = (FINISHED \<in> set (returned (snd (fold (call_method d) calls
            (init name' log' run_script' run_args' partition' exclude' clusters' qos' mem'
               time' export', w)))))"
proof -
  have "exitcode_inv
     (init name' log' run_script' run_args' partition' exclude' clusters' qos' mem' time'
        export', w)"
    using assms by (simp add: exitcode_inv_def init_def)
  then have "exitcode_inv (fold (call_method d) calls
     (init name' log' run_script' run_args' partition' exclude' clusters' qos' mem' time'
        export', w))"
    by (rule fold_keeps_inv)
  then show ?thesis
    by (simp add: exitcode_inv_def)
qed

theorem exitcode_set_iff_finished_returned_witness:
  "returned (ex_env out_completed) = [] \<and>
   u_exitcode (fst (fold (call_method ex_deps) [CallStatus, CallExitcode]
      (ex_unsubmitted, ex_env out_completed))) = Some ''0:0'' \<and>
   FINISHED \<in> set (returned (snd (fold (call_method ex_deps) [CallStatus, CallExitcode]
      (ex_unsubmitted, ex_env out_completed)))) \<and>
   u_exitcode (fst (fold (call_method ex_deps) [CallStatus, CallExitcode]
      (ex_unsubmitted, ex_env out_running))) = None \<and>
   FINISHED \<notin> set (returned (snd (fold (call_method ex_deps) [CallStatus, CallExitcode]
      (ex_unsubmitted, ex_env out_running))))"
proof -
  have r: "returned (ex_env out) = []" for out
    by (simp add: ex_env_def)
  have s1: "status ex_deps ex_unsubmitted (ex_env out_completed) =
      (Inr FINISHED, ex_unsubmitted\<lparr>u_exitcode := Some ''0:0''\<rparr>,
       (ex_env out_completed)\<lparr>spawned := 1, returned := [FINISHED]\<rparr>)"
    using status_kept_row [OF ex_sacct_answer, of out_completed ex_unsubmitted]
    by (simp add: data_rows_out_completed row_defs run_states_def ex_env_def)
  have e1: "u_exitcode (fst (fold (call_method ex_deps) [CallStatus, CallExitcode]
      (ex_unsubmitted, ex_env out_completed))) = Some ''0:0''"
    by (simp add: s1 exitcode_def)
  have s2: "status ex_deps ex_unsubmitted (ex_env out_running) =
      (Inr RUNNING, ex_unsubmitted, (ex_env out_running)\<lparr>spawned := 1, returned := [RUNNING]\<rparr>)"
    using status_kept_row [OF ex_sacct_answer, of out_running ex_unsubmitted]
    by (simp add: data_rows_out_running row_defs run_states_def ex_env_def)
  have s3: "status ex_deps ex_unsubmitted
        ((ex_env out_running)\<lparr>spawned := Suc 0, returned := [RUNNING]\<rparr>) =
      (Inr RUNNING, ex_unsubmitted,
       (ex_env out_running)\<lparr>spawned := 2, returned := [RUNNING, RUNNING]\<rparr>)"
    using status_kept_row [of ex_deps ex_unsubmitted
        "(ex_env out_running)\<lparr>spawned := Suc 0, returned := [RUNNING]\<rparr>" out_running]
    by (simp add: sacct_answer_def get_sacct_command_def ex_deps_def
        data_rows_out_running row_defs run_states_def ex_env_def)
  have n: "u_exitcode ex_unsubmitted = None"
    by (simp add: ex_unsubmitted_def init_def)
  have e2: "u_exitcode (fst (fold (call_method ex_deps) [CallStatus, CallExitcode]
      (ex_unsubmitted, ex_env out_running))) = None"
    by (simp add: s2 s3 n exitcode_def)
  note t = exitcode_set_iff_finished_returned [where d = ex_deps
      and calls = "[CallStatus, CallExitcode]" and name' = "Some ''job''" and log' = None
      and run_script' = "Some ''run.sh''" and run_args' = None and partition' = None
      and exclude' = None and clusters' = None and qos' = None and mem' = None
      and time' = None and export' = None]
  from t [of "ex_env out_completed", OF r] t [of "ex_env out_running", OF r]
  show ?thesis
    unfolding ex_unsubmitted_def [symmetric] using e1 e2 r by simp
qed

subsection \<open>The submit command and the job identifier\<close>

lemma add_opt_flag:
  "add_opt pre v command =
     command @ (case v of None \<Rightarrow> [] | Some x \<Rightarrow> if x = [] then [] else pre @ x @ '' '')"
  by (simp add: add_opt_def split: option.splits)

lemma add_run_args_text: "add_run_args a command = command @ args_text a"
  by (simp add: add_run_args_def args_text_def split: option.splits run_args.splits)

text \<open>
  C3, as stated, fails: a field that is set to the empty string gets no flag, since the
  code tests \<open>if self.name:\<close> and the empty string is false. With \<open>name = ''\<close> the command
  has no \<open>-J\<close>, where one flag for each field that is set would give \<open>sbatch -J  run.sh\<close>.
\<close>

theorem submit_command_flags_counterexample:
  "name ex_empty_name = Some [] \<and>
   submit_command_string ex_deps ex_empty_name = ''sbatch run.sh '' \<and>
   ''sbatch '' @ flags_of_set (flag_fields ex_empty_name)
     @ wrapper_get ex_deps (run_script ex_empty_name) @ '' ''
     @ args_text (run_args ex_empty_name) = ''sbatch -J  run.sh ''"
  by (simp add: ex_empty_name_def init_def submit_command_string_def add_opt_def
      add_run_args_def ex_deps_def flag_fields_def flags_of_set_def args_text_def)

text \<open>
  C3, amended: the built submit command is \<open>sbatch\<close>, then exactly one flag for each
  optional field set to a non-empty value and none for a field that is absent or empty, in
  the order name, log, partition, excluded nodes, clusters, QoS, memory, time, export, then
  the resolved run script, then the run arguments (a string as it is, a sequence joined by
  spaces); this string goes through the wrapping hook and is split into tokens.
\<close>

theorem submit_command_flags:
  "get_submit_command d self =
     shlex_split d
       (get_command d
          (''sbatch '' @ flags_of_nonempty (flag_fields self)
             @ wrapper_get d (run_script self) @ '' '' @ args_text (run_args self))
          (bid d))"
  by (simp add: get_submit_command_def submit_command_string_def add_opt_flag
      add_run_args_text flag_fields_def flags_of_nonempty_def)

theorem submit_command_flags_witness:
  "get_submit_command ex_deps ex_some_fields =
     Inr [''sbatch'', ''-J'', ''fit'', ''-p'', ''short'', ''--mem=4G'', ''run.sh'', ''-n'', ''10'']"
  unfolding submit_command_flags
  by (simp add: ex_some_fields_def init_def ex_deps_def flag_fields_def flags_of_nonempty_def
      args_text_def)

text \<open>
  C4, as stated, fails: the code splits the whole output at single spaces and takes the
  field of index 3. With two spaces after the first word, the fourth whitespace-separated
  token of the first line is \<open>4242\<close>, but the field of index 3 is \<open>job\<close> and \<open>submit()\<close>
  raises \<open>ValueError\<close>.
\<close>

theorem submit_fourth_token_counterexample:
  "fourth_token_id out_two_spaces = Some 4242 \<and>
   submit ex_deps ex_unsubmitted (ex_env out_two_spaces) =
     (Inl ValueError, ex_unsubmitted, (ex_env out_two_spaces)\<lparr>spawned := 1\<rparr>)"
proof -
  have "fourth_token_id out_two_spaces = Some 4242"
    by (simp add: fourth_token_id_def out_two_spaces_def first_line_def ws_tokens_def
        is_space_def py_int_def strip_def digit_of_def)
  moreover have "split_on CHR '' '' out_two_spaces =
      [''Submitted'', [], ''batch'', ''job'', ''4242'' @ [NL]]"
    by (simp add: out_two_spaces_def)
  then have "submit ex_deps ex_unsubmitted (ex_env out_two_spaces) =
     (Inl ValueError, ex_unsubmitted, (ex_env out_two_spaces)\<lparr>spawned := 1\<rparr>)"
    by (simp add: submit_def get_submit_command_def ex_deps_def ex_env_def index_def
        rstrip_def py_int_def strip_def is_space_def digit_of_def)
  ultimately show ?thesis by simp
qed

text \<open>
  C4, amended: when the submission output, split at single spaces, has at least four
  fields and the fourth, with trailing newlines stripped, reads as an integer, \<open>submit()\<close>
  stores that integer on the object and returns it, after spawning one process. In
  particular the output \<open>Submitted batch job 4242\<close> followed by a newline yields \<open>4242\<close>.
\<close>

theorem submit_fourth_field:
  assumes "sbatch_answer d self w = Some out"
    and "3 < length (split_on CHR '' '' out)"
    and "py_int (rstrip (split_on CHR '' '' out ! 3) [NL]) = Some job_id"
  shows "submit d self w =
     (Inr job_id, self\<lparr>u_job_id := Some job_id\<rparr>, w\<lparr>spawned := Suc (spawned w)\<rparr>)"
  using assms
  by (auto simp: submit_def sbatch_answer_def index_def Let_def split: sum.splits)

theorem submit_fourth_field_witness:
  "sbatch_answer ex_deps ex_unsubmitted (ex_env out_submitted) = Some out_submitted \<and>
   split_on CHR '' '' out_submitted = [''Submitted'', ''batch'', ''job'', ''4242'' @ [NL]] \<and>
   submit ex_deps ex_unsubmitted (ex_env out_submitted) =
     (Inr 4242, ex_unsubmitted\<lparr>u_job_id := Some 4242\<rparr>, (ex_env out_submitted)\<lparr>spawned := 1\<rparr>)"
proof -
  have a: "sbatch_answer ex_deps ex_unsubmitted (ex_env out_submitted) = Some out_submitted"
    by (simp add: sbatch_answer_def get_submit_command_def ex_deps_def ex_env_def)
  have s: "split_on CHR '' '' out_submitted = [''Submitted'', ''batch'', ''job'', ''4242'' @ [NL]]"
    by (simp add: out_submitted_def)
  have l: "3 < length (split_on CHR '' '' out_submitted)"
    by (simp add: s)
  have p: "py_int (rstrip (split_on CHR '' '' out_submitted ! 3) [NL]) = Some 4242"
    by (simp add: s rstrip_def py_int_def strip_def is_space_def digit_of_def)
  from submit_fourth_field [OF a l p] a s show ?thesis
    by (simp add: ex_env_def)
qed

text \<open>
  On the template of the scheduler, \<open>Submitted batch job\<close>, an identifier without
  whitespace and a newline, the two readings agree: the field of index 3 is the fourth
  whitespace-separated token of the first line.
\<close>

lemma split_on_no_sep: "sep \<notin> set s \<Longrightarrow> split_on sep s = [s]"
  by (induction s) auto

lemma split_when_none: "\<forall>c\<in>set s. \<not> p c \<Longrightarrow> split_when p s = [s]"
  by (induction s) auto

lemma rstrip_newline_after_token:
  assumes "\<forall>c\<in>set ds. \<not> is_space c"
  shows "rstrip (ds @ [NL]) [NL] = ds"
proof -
  have "NL \<notin> set ds"
    using assms by (auto simp: is_space_def)
  then have "dropWhile (\<lambda>c. c = NL) (rev ds) = rev ds"
    by (cases "rev ds") auto
  then show ?thesis
    by (simp add: rstrip_def)
qed

lemma first_line_template:
  assumes "\<forall>c\<in>set ds. \<not> is_space c"
  shows "first_line (''Submitted batch job '' @ ds @ [NL]) = ''Submitted batch job '' @ ds"
proof -
  have "NL \<notin> set ds"
    using assms by (auto simp: is_space_def)
  then have "takeWhile (\<lambda>c. c \<noteq> NL) (ds @ [NL]) = ds"
    by (induction ds) auto
  then show ?thesis
    by (simp add: first_line_def)
qed

lemma submit_on_template:
  assumes "sbatch_answer d self w = Some (''Submitted batch job '' @ ds @ [NL])"
    and "\<forall>c\<in>set ds. \<not> is_space c" and "py_int ds = Some job_id"
  shows "submit d self w =
       (Inr job_id, self\<lparr>u_job_id := Some job_id\<rparr>, w\<lparr>spawned := Suc (spawned w)\<rparr>)"
    and "fourth_token_id (''Submitted batch job '' @ ds @ [NL]) = Some job_id"
proof -
  define out where "out = ''Submitted batch job '' @ ds @ [NL]"
  have sp: "CHR '' '' \<notin> set (ds @ [NL])"
    using assms(2) by (auto simp: is_space_def)
  have toks: "split_on CHR '' '' out = [''Submitted'', ''batch'', ''job'', ds @ [NL]]"
    unfolding out_def by (simp add: split_on_no_sep [OF sp])
  have tok: "py_int (rstrip (split_on CHR '' '' out ! 3) [NL]) = Some job_id"
    by (simp add: toks rstrip_newline_after_token [OF assms(2)] assms(3))
  have len: "3 < length (split_on CHR '' '' out)"
    by (simp add: toks)
  have "sbatch_answer d self w = Some out"
    using assms(1) by (simp only: out_def)
  then show "submit d self w =
       (Inr job_id, self\<lparr>u_job_id := Some job_id\<rparr>, w\<lparr>spawned := Suc (spawned w)\<rparr>)"
    using tok len
    by (auto simp: submit_def sbatch_answer_def index_def Let_def split: sum.splits)
  from assms(3) have "ds \<noteq> []"
    by (auto simp: py_int_def strip_def)
  then have wt: "ws_tokens (''Submitted batch job '' @ ds) = [''Submitted'', ''batch'', ''job'', ds]"
    by (simp add: ws_tokens_def split_when_none [OF assms(2)] is_space_def)
  show "fourth_token_id (''Submitted batch job '' @ ds @ [NL]) = Some job_id"
    unfolding fourth_token_id_def first_line_template [OF assms(2)] wt
    using assms(3) by simp
qed

subsection \<open>One pass of the listener\<close>

lemma map_add_rev_Cons:
  "m ++ map_of (rev ((k, v) # kvs)) = m(k \<mapsto> v) ++ map_of (rev kvs)"
  by (rule ext) (simp add: map_add_def split: option.splits)

lemma case_last_if:
  "(case xs of [] \<Rightarrow> None | y # ys \<Rightarrow> Some (snd (last (y # ys))))
     = (if xs = [] then None else Some (snd (last xs)))"
  by (cases xs) simp_all

lemma kept_jobs_Nil: "kept_jobs [] = []"
  by (simp add: kept_jobs_def map_filter_simps)

lemma kept_jobs_dropped: "\<not> keeps r \<Longrightarrow> kept_jobs (r # rows) = kept_jobs rows"
  by (simp add: kept_jobs_def)

lemma kept_jobs_kept:
  "keeps r \<Longrightarrow> row_job r = Some j \<Longrightarrow> kept_jobs (r # rows) = (j, r) # kept_jobs rows"
  by (simp add: kept_jobs_def map_filter_simps)

lemma last_match_map_of:
  "(case filter (\<lambda>(i, r). i = j) kvs of [] \<Rightarrow> None | x # xs \<Rightarrow> Some (snd (last (x # xs))))
     = map_of (rev kvs) j"
proof (induction kvs rule: rev_induct)
  case Nil
  then show ?case by simp
next
  case (snoc kv kvs)
  obtain i r where kv: "kv = (i, r)" by (cases kv)
  show ?case
  proof (cases "i = j")
    case True
    then show ?thesis
      using kv by (simp add: case_last_if)
  next
    case False
    then show ?thesis
      using kv snoc.IH by (simp add: case_last_if)
  qed
qed

lemma last_row_of_map_of: "last_row_of j rows = map_of (rev (kept_jobs rows)) j"
  unfolding last_row_of_def by (rule last_match_map_of)

lemma listen_scan_ok:
  assumes "\<forall>r\<in>set rows. poll_row_ok r"
  shows "listen_scan rows (job_ids, return_states, return_exitcodes) =
     Inr (job_ids @ map fst (kept_jobs rows),
          return_states ++ map_of (rev (map (\<lambda>(j, r). (j, row_state r)) (kept_jobs rows))),
          return_exitcodes ++ map_of (rev (map (\<lambda>(j, r). (j, row_exitcode r)) (kept_jobs rows))))"
  using assms
proof (induction rows arbitrary: job_ids return_states return_exitcodes)
  case Nil
  then show ?case by (simp add: kept_jobs_Nil)
next
  case (Cons r rows)
  then have ok: "row_ok r" and job: "keeps r \<longrightarrow> row_job r \<noteq> None"
    and rest: "\<forall>r\<in>set rows. poll_row_ok r"
    by (simp_all add: poll_row_ok_def)
  show ?case
  proof (cases "keeps r")
    case False
    then have "listen_scan (r # rows) (job_ids, return_states, return_exitcodes) =
        listen_scan rows (job_ids, return_states, return_exitcodes)"
      using ok by (auto simp: unpack3_row_ok keeps_def)
    then show ?thesis
      using Cons.IH [OF rest] False by (simp add: kept_jobs_dropped)
  next
    case True
    with job obtain j where j: "row_job r = Some j" by auto
    have "listen_scan (r # rows) (job_ids, return_states, return_exitcodes) =
        listen_scan rows (job_ids @ [j], return_states(j \<mapsto> row_state r),
          return_exitcodes(j \<mapsto> row_exitcode r))"
      using ok True j by (simp add: unpack3_row_ok keeps_def row_job_def)
    also note Cons.IH [OF rest]
    finally show ?thesis
      unfolding kept_jobs_kept [OF True j]
      by (simp only: list.map prod.case fst_conv map_add_rev_Cons append_Cons append_Nil
          append_assoc)
  qed
qed


lemma od_set_new: "k \<notin> fst ` set od \<Longrightarrow> od_set k v od = od @ [(k, v)]"
  by (simp add: od_set_def)

lemma listen_results_ok:
  assumes "distinct order" and "set order \<subseteq> dom return_states"
    and "set order \<subseteq> dom return_exitcodes" and "set order \<inter> fst ` set res_dict = {}"
  shows "listen_results order return_states return_exitcodes res_dict =
     Inr (res_dict @
          List.map_filter (\<lambda>j. map_option (Pair j) (recorded return_states return_exitcodes j))
            order)"
  using assms
proof (induction order arbitrary: res_dict)
  case Nil
  then show ?case by (simp add: map_filter_simps)
next
  case (Cons j order)
  then obtain state ec where st: "return_states j = Some state"
    and ec: "return_exitcodes j = Some ec"
    by auto
  from Cons.prems have d: "distinct order" and j: "j \<notin> set order"
    and s1: "set order \<subseteq> dom return_states" and s2: "set order \<subseteq> dom return_exitcodes"
    and new: "j \<notin> fst ` set res_dict" and disj: "set order \<inter> fst ` set res_dict = {}"
    by auto
  show ?case
  proof (cases "state \<in> run_states")
    case True
    then show ?thesis
      using Cons.IH [OF d s1 s2 disj] st
      by (simp add: lookup_def recorded_def map_filter_simps)
  next
    case False
    let ?e = "\<lparr>entry_status = FINISHED, entry_exitcode = ec\<rparr>"
    have disj': "set order \<inter> fst ` set (res_dict @ [(j, ?e)]) = {}"
      using disj j by auto
    have "listen_results (j # order) return_states return_exitcodes res_dict =
        listen_results order return_states return_exitcodes (res_dict @ [(j, ?e)])"
      using False st ec new by (simp add: lookup_def od_set_new)
    also note Cons.IH [OF d s1 s2 disj']
    finally show ?thesis
      using False st ec by (simp add: recorded_def map_filter_simps)
  qed
qed

lemma map_of_rev_map_snd:
  "map_of (rev (map (\<lambda>(j, r). (j, f r)) kvs)) j = map_option f (map_of (rev kvs) j)"
proof -
  have "rev (map (\<lambda>(j, r). (j, f r)) kvs) = map (\<lambda>(j, r). (j, f r)) (rev kvs)"
    by (simp add: rev_map)
  then show ?thesis
    by (simp add: map_of_map)
qed

lemma recorded_published:
  "recorded (map_of (rev (map (\<lambda>(j, r). (j, row_state r)) (kept_jobs rows))))
     (map_of (rev (map (\<lambda>(j, r). (j, row_exitcode r)) (kept_jobs rows)))) j
   = published_entry j rows"
  by (simp add: recorded_def published_entry_def last_row_of_map_of map_of_rev_map_snd
      split: option.splits)

lemma dom_map_of_rev_map:
  "dom (map_of (rev (map (\<lambda>(j, r). (j, f r)) kvs))) = set (map fst kvs)"
  by (auto simp: dom_map_of_conv_image_fst image_iff split: prod.splits) force+

lemma listen_mapping_ok:
  assumes "set_iter_ok set_iter" and "\<forall>r\<in>set (data_rows out). poll_row_ok r"
  shows "listen_mapping set_iter out =
     Inr (List.map_filter (\<lambda>j. map_option (Pair j) (published_entry j (data_rows out)))
            (set_iter (poll_ids (data_rows out))))"
proof -
  let ?rows = "data_rows out"
  let ?st = "map_of (rev (map (\<lambda>(j, r). (j, row_state r)) (kept_jobs ?rows)))"
  let ?ex = "map_of (rev (map (\<lambda>(j, r). (j, row_exitcode r)) (kept_jobs ?rows)))"
  have scan: "listen_scan ?rows ([], Map.empty, Map.empty) = Inr (poll_ids ?rows, ?st, ?ex)"
    using listen_scan_ok [OF assms(2), of "[]" Map.empty Map.empty]
    by (simp add: poll_ids_def)
  from assms(1) have d: "distinct (set_iter (poll_ids ?rows))"
    and s: "set (set_iter (poll_ids ?rows)) = set (poll_ids ?rows)"
    by (simp_all add: set_iter_ok_def)
  have dst: "dom ?st = set (poll_ids ?rows)" and dex: "dom ?ex = set (poll_ids ?rows)"
    by (simp_all only: dom_map_of_rev_map poll_ids_def)
  have "listen_results (set_iter (poll_ids ?rows)) ?st ?ex [] =
      Inr ([] @ List.map_filter (\<lambda>j. map_option (Pair j) (recorded ?st ?ex j))
                  (set_iter (poll_ids ?rows)))"
    by (rule listen_results_ok) (simp_all add: d s dst dex)
  then show ?thesis
    using scan by (simp add: listen_mapping_def data_rows_def recorded_published)
qed

lemma map_of_map_filter_Pair:
  "map_of (List.map_filter (\<lambda>j. map_option (Pair j) (f j)) xs) j =
     (if j \<in> set xs then f j else None)"
  by (induction xs) (auto simp: map_filter_simps split: option.splits)

lemma map_fst_map_filter_Pair:
  "map fst (List.map_filter (\<lambda>j. map_option (Pair j) (f j)) xs) = filter (\<lambda>j. f j \<noteq> None) xs"
  by (induction xs) (auto simp: map_filter_simps split: option.splits)

lemma published_entry_only_polled:
  "j \<notin> set (poll_ids rows) \<Longrightarrow> published_entry j rows = None"
proof -
  assume "j \<notin> set (poll_ids rows)"
  then have "map_of (rev (kept_jobs rows)) j = None"
    by (simp add: poll_ids_def map_of_eq_None_iff)
  then show ?thesis
    by (simp add: published_entry_def last_row_of_map_of)
qed


lemma set_iter_ok_first_seen: "set_iter_ok first_seen"
  by (simp add: set_iter_ok_def first_seen_def)

lemma set_iter_ok_ascending_iter: "set_iter_ok ascending_iter"
  by (simp add: set_iter_ok_def ascending_iter_def)

lemma data_rows_out_poll:
  "data_rows out_poll =
     [''10|RUNNING|'', ''11|FAILED|1:0'', ''11.batch|FAILED|1:0'', ''12.extern|COMPLETED|0:0'']"
  by (simp add: data_rows_def out_poll_def rstrip_def)

lemma data_rows_out_5_2: "data_rows out_5_2 = [''5|FAILED|1:0'', ''2|COMPLETED|0:0'']"
  by (simp add: data_rows_def out_5_2_def rstrip_def)

lemmas poll_defs = poll_row_ok_def keeps_def row_job_def kept_jobs_def poll_ids_def
  last_row_of_def published_entry_def map_filter_simps py_int_def strip_def is_space_def
  digit_of_def run_states_def

lemma listen_body_ok:
  assumes "set_iter_ok set_iter" and "run w (spawned w) command = Exited 0 out"
    and "\<forall>r\<in>set (data_rows out). poll_row_ok r"
  shows "listen_body set_iter command w =
     (Inr (), w\<lparr>spawned := Suc (spawned w),
        queue := queue w @
          [List.map_filter (\<lambda>j. map_option (Pair j) (published_entry j (data_rows out)))
             (set_iter (poll_ids (data_rows out)))]\<rparr>)"
  using assms(2) listen_mapping_ok [OF assms(1) assms(3)]
  by (simp add: listen_body_def)

text \<open>
  C1: for a poll output whose data rows have three fields and whose kept rows have
  integer identifiers, one pass of the listener's loop spawns one query, ignores the rows
  with \<open>.batch\<close> or \<open>.extern\<close> in the identifier and puts one mapping on the queue; its keys
  are distinct, and an identifier has an entry exactly when the state of its last kept row
  is neither \<open>PENDING\<close> nor \<open>RUNNING\<close>, the entry being \<open>FINISHED\<close> with the exit code of
  that row. This holds for every iteration order of the set \<open>job_ids\<close>.
\<close>

theorem listen_publishes_finished:
  assumes "set_iter_ok set_iter" and "run w (spawned w) command = Exited 0 out"
    and "\<forall>r\<in>set (data_rows out). poll_row_ok r"
  shows "\<exists>res_dict.
     listen_body set_iter command w =
       (Inr (), w\<lparr>spawned := Suc (spawned w), queue := queue w @ [res_dict]\<rparr>) \<and>
     distinct (map fst res_dict) \<and>
     (\<forall>j. map_of res_dict j = published_entry j (data_rows out))"
proof -
  let ?order = "set_iter (poll_ids (data_rows out))"
  let ?res = "List.map_filter (\<lambda>j. map_option (Pair j) (published_entry j (data_rows out))) ?order"
  from assms(1) have d: "distinct ?order" and s: "set ?order = set (poll_ids (data_rows out))"
    by (simp_all add: set_iter_ok_def)
  have "distinct (map fst ?res)"
    using d by (simp add: map_fst_map_filter_Pair)
  moreover have "map_of ?res j = published_entry j (data_rows out)" for j
    using published_entry_only_polled [of j "data_rows out"]
    by (simp add: map_of_map_filter_Pair s)
  ultimately show ?thesis
    using listen_body_ok [OF assms] by blast
qed

theorem listen_publishes_finished_witness:
  "set_iter_ok first_seen \<and> run (ex_env out_poll) (spawned (ex_env out_poll)) [] = Exited 0 out_poll \<and>
   list_all poll_row_ok (data_rows out_poll) \<and>
   (\<exists>res_dict.
      listen_body first_seen [] (ex_env out_poll) =
        (Inr (), (ex_env out_poll)\<lparr>spawned := 1, queue := [res_dict]\<rparr>) \<and>
      distinct (map fst res_dict) \<and>
      map_of res_dict 10 = None \<and>
      map_of res_dict 11 = Some \<lparr>entry_status = FINISHED, entry_exitcode = ''1:0''\<rparr> \<and>
      map_of res_dict 12 = None) \<and>
   listen_body first_seen [] (ex_env out_poll) =
     (Inr (), (ex_env out_poll)\<lparr>spawned := 1,
        queue := [[(11, \<lparr>entry_status = FINISHED, entry_exitcode = ''1:0''\<rparr>)]]\<rparr>)"
proof -
  have r: "run (ex_env out_poll) (spawned (ex_env out_poll)) [] = Exited 0 out_poll"
    by (simp add: ex_env_def)
  have ok: "\<forall>r\<in>set (data_rows out_poll). poll_row_ok r"
    by (simp add: data_rows_out_poll poll_defs row_defs)
  have p: "published_entry 10 (data_rows out_poll) = None"
    "published_entry 11 (data_rows out_poll) =
       Some \<lparr>entry_status = FINISHED, entry_exitcode = ''1:0''\<rparr>"
    "published_entry 12 (data_rows out_poll) = None"
    by (simp_all add: data_rows_out_poll poll_defs row_defs)
  from listen_publishes_finished [OF set_iter_ok_first_seen r ok]
  obtain res_dict where "listen_body first_seen [] (ex_env out_poll) =
      (Inr (), (ex_env out_poll)\<lparr>spawned := Suc (spawned (ex_env out_poll)),
         queue := queue (ex_env out_poll) @ [res_dict]\<rparr>)"
    and "distinct (map fst res_dict)"
    and "\<forall>j. map_of res_dict j = published_entry j (data_rows out_poll)"
    by blast
  then have "listen_body first_seen [] (ex_env out_poll) =
        (Inr (), (ex_env out_poll)\<lparr>spawned := 1, queue := [res_dict]\<rparr>) \<and>
      distinct (map fst res_dict) \<and>
      map_of res_dict 10 = None \<and>
      map_of res_dict 11 = Some \<lparr>entry_status = FINISHED, entry_exitcode = ''1:0''\<rparr> \<and>
      map_of res_dict 12 = None"
    by (simp add: p ex_env_def)
  moreover have "listen_mapping first_seen out_poll =
      Inr [(11, \<lparr>entry_status = FINISHED, entry_exitcode = ''1:0''\<rparr>)]"
    by (simp add: listen_mapping_def out_poll_def rstrip_def py_int_def strip_def is_space_def
        digit_of_def first_seen_def lookup_def run_states_def od_set_def)
  then have "listen_body first_seen [] (ex_env out_poll) =
     (Inr (), (ex_env out_poll)\<lparr>spawned := 1,
        queue := [[(11, \<lparr>entry_status = FINISHED, entry_exitcode = ''1:0''\<rparr>)]]\<rparr>)"
    by (simp add: listen_body_def ex_env_def)
  ultimately show ?thesis
    using set_iter_ok_first_seen r ok by (auto simp: list_all_iff)
qed

text \<open>
  C5, as stated, fails: the second loop runs over the set \<open>job_ids\<close>, so the mapping is
  filled in the iteration order of a Python set. For the rows of jobs 5 and 2, in this
  order, a set that iterates upwards (as CPython's does here) publishes 2 before 5, while
  the order of first discovery is 5 before 2.
\<close>

theorem listen_order_counterexample:
  "set_iter_ok ascending_iter \<and>
   listen_body ascending_iter [] (ex_env out_5_2) =
     (Inr (), (ex_env out_5_2)\<lparr>spawned := 1,
        queue := [[(2, \<lparr>entry_status = FINISHED, entry_exitcode = ''0:0''\<rparr>),
                   (5, \<lparr>entry_status = FINISHED, entry_exitcode = ''1:0''\<rparr>)]]\<rparr>) \<and>
   discovery_order (data_rows out_5_2) = [5, 2]"
proof -
  have "listen_mapping ascending_iter out_5_2 =
      Inr [(2, \<lparr>entry_status = FINISHED, entry_exitcode = ''0:0''\<rparr>),
           (5, \<lparr>entry_status = FINISHED, entry_exitcode = ''1:0''\<rparr>)]"
    by (simp add: listen_mapping_def out_5_2_def rstrip_def py_int_def strip_def is_space_def
        digit_of_def ascending_iter_def lookup_def run_states_def od_set_def)
  then have "listen_body ascending_iter [] (ex_env out_5_2) =
     (Inr (), (ex_env out_5_2)\<lparr>spawned := 1,
        queue := [[(2, \<lparr>entry_status = FINISHED, entry_exitcode = ''0:0''\<rparr>),
                   (5, \<lparr>entry_status = FINISHED, entry_exitcode = ''1:0''\<rparr>)]]\<rparr>)"
    by (simp add: listen_body_def ex_env_def)
  moreover have "discovery_order (data_rows out_5_2) = [5, 2]"
    by (simp add: discovery_order_def first_seen_def data_rows_out_5_2 poll_defs row_defs)
  ultimately show ?thesis
    using set_iter_ok_ascending_iter by simp
qed

text \<open>
  C5, amended: the keys of the published mapping are the finished identifiers in the order
  in which the set \<open>job_ids\<close> is iterated, whatever that order is; it is the order of first
  discovery when the set happens to iterate in insertion order.
\<close>

theorem listen_order_follows_set:
  assumes "set_iter_ok set_iter" and "run w (spawned w) command = Exited 0 out"
    and "\<forall>r\<in>set (data_rows out). poll_row_ok r"
  shows "\<exists>res_dict.
     listen_body set_iter command w =
       (Inr (), w\<lparr>spawned := Suc (spawned w), queue := queue w @ [res_dict]\<rparr>) \<and>
     map fst res_dict =
       filter (\<lambda>j. published_entry j (data_rows out) \<noteq> None)
         (set_iter (poll_ids (data_rows out)))"
proof -
  let ?res = "List.map_filter (\<lambda>j. map_option (Pair j) (published_entry j (data_rows out)))
      (set_iter (poll_ids (data_rows out)))"
  have "map fst ?res =
      filter (\<lambda>j. published_entry j (data_rows out) \<noteq> None)
        (set_iter (poll_ids (data_rows out)))"
    by (rule map_fst_map_filter_Pair)
  with listen_body_ok [OF assms] show ?thesis by blast
qed

theorem listen_order_follows_set_witness:
  "set_iter_ok ascending_iter \<and> set_iter_ok first_seen \<and>
   list_all poll_row_ok (data_rows out_5_2) \<and>
   poll_ids (data_rows out_5_2) = [5, 2] \<and>
   (\<exists>res_dict.
      listen_body ascending_iter [] (ex_env out_5_2) =
        (Inr (), (ex_env out_5_2)\<lparr>spawned := 1, queue := [res_dict]\<rparr>) \<and>
      map fst res_dict = [2, 5]) \<and>
   (\<exists>res_dict.
      listen_body first_seen [] (ex_env out_5_2) =
        (Inr (), (ex_env out_5_2)\<lparr>spawned := 1, queue := [res_dict]\<rparr>) \<and>
      map fst res_dict = [5, 2])"
proof -
  have r: "run (ex_env out_5_2) (spawned (ex_env out_5_2)) [] = Exited 0 out_5_2"
    by (simp add: ex_env_def)
  have ok: "\<forall>r\<in>set (data_rows out_5_2). poll_row_ok r"
    by (simp add: data_rows_out_5_2 poll_defs row_defs)
  have ids: "poll_ids (data_rows out_5_2) = [5, 2]"
    by (simp add: data_rows_out_5_2 poll_defs row_defs)
  have p: "published_entry 5 (data_rows out_5_2) \<noteq> None"
    "published_entry 2 (data_rows out_5_2) \<noteq> None"
    by (simp_all add: data_rows_out_5_2 poll_defs row_defs)
  have a: "\<exists>res_dict.
      listen_body ascending_iter [] (ex_env out_5_2) =
        (Inr (), (ex_env out_5_2)\<lparr>spawned := 1, queue := [res_dict]\<rparr>) \<and>
      map fst res_dict = [2, 5]"
    using listen_order_follows_set [OF set_iter_ok_ascending_iter r ok] p
    by (simp add: ids ascending_iter_def ex_env_def)
  have b: "\<exists>res_dict.
      listen_body first_seen [] (ex_env out_5_2) =
        (Inr (), (ex_env out_5_2)\<lparr>spawned := 1, queue := [res_dict]\<rparr>) \<and>
      map fst res_dict = [5, 2]"
    using listen_order_follows_set [OF set_iter_ok_first_seen r ok] p
    by (simp add: ids first_seen_def ex_env_def)
  show ?thesis
    using a b ok ids set_iter_ok_ascending_iter set_iter_ok_first_seen
    by (simp add: list_all_iff)
qed

end
